theory Spec2Isabelle
  imports Complex_Main "HOL-Library.Word"
begin

section \<open>The tutorial problem \<open>example0_g\<close> of problem_sandbox.cpp\<close>

text \<open>
  The file defines one user problem, the struct \<open>example0_g\<close>: minimise
  \<open>x1^2 + x2^2 + x3^2 + x4^2\<close> in the box \<open>-10 \<le> xi \<le> 10\<close>, with its gradient and
  the sparsity pattern of the gradient. Every method is embedded below as a HOL function
  that follows the statements of the method's body.
\<close>

subsection \<open>Data model\<close>

text \<open>
  Modelled from the spec: the header include/types.hpp, which declares
  \<open>decision_vector\<close>, \<open>fitness_vector\<close>, \<open>gradient_vector\<close> and \<open>sparsity_pattern\<close>,
  is not part of the sources. The spec's data model gives the first three as ordered
  sequences of real numbers and the last as an ordered collection of
  (objective index, variable index) pairs. The entries are therefore exact reals in the
  methods below; rounding, overflow to infinity and NaN of a machine floating-point type
  enter only where a property depends on them, in the binary64 evaluation of the objective
  further down. The pairs are built in the source as \<open>std::pair<long, long>\<close>, hence \<open>int\<close>.
\<close>

type_synonym decision_vector = "real list"
type_synonym fitness_vector = "real list"
type_synonym gradient_vector = "real list"
type_synonym sparsity_pattern = "(int \<times> int) list"

text \<open>
  \<open>example0_g\<close> is a struct without data members: an object of it has exactly one state.
\<close>

datatype example0_g = Example0_g

text \<open>
  The outcomes of a method other than its return value. The source never raises
  \<open>DimensionMismatch\<close>; the constructor is the name the spec gives to a wrong-length
  input and is here so that statements can mention it. \<open>OutOfRangeRead\<close> stands for the
  unchecked \<open>x[i]\<close> of a \<open>std::vector\<close> with \<open>i\<close> not below its size, which is undefined
  behaviour in C++: the model stops there.
\<close>

datatype error = DimensionMismatch | OutOfRangeRead

definition vec_read :: "'a list \<Rightarrow> nat \<Rightarrow> error + 'a" where
  "vec_read xs i = (if i < length xs then Inr (xs ! i) else Inl OutOfRangeRead)"

subsection \<open>The methods\<close>

text \<open>
  \<open>fitness\<close>: \<open>fitness_vector retval(1)\<close> is one value-initialised entry; the four entries
  of \<open>x\<close> are read without any check of the size of \<open>x\<close>; \<open>retval[0]\<close> is in range.
\<close>

definition fitness :: "decision_vector \<Rightarrow> error + fitness_vector" where
  "fitness x =
     (let retval = replicate 1 0 in
      (case vec_read x 0 of Inl e \<Rightarrow> Inl e | Inr x0 \<Rightarrow>
      (case vec_read x 1 of Inl e \<Rightarrow> Inl e | Inr x1 \<Rightarrow>
      (case vec_read x 2 of Inl e \<Rightarrow> Inl e | Inr x2 \<Rightarrow>
      (case vec_read x 3 of Inl e \<Rightarrow> Inl e | Inr x3 \<Rightarrow>
       Inr (retval[0 := x0 * x0 + x1 * x1 + x2 * x2 + x3 * x3]))))))"

text \<open>
  \<open>gradient\<close>: \<open>gradient_vector retval(4, 0.)\<close>, then one assignment per entry, each
  reading one entry of \<open>x\<close>, again unchecked.
\<close>

definition gradient :: "decision_vector \<Rightarrow> error + gradient_vector" where
  "gradient x =
     (let retval = replicate 4 0 in
      (case vec_read x 0 of Inl e \<Rightarrow> Inl e | Inr x0 \<Rightarrow>
      (let retval = retval[0 := 2 * x0] in
      (case vec_read x 1 of Inl e \<Rightarrow> Inl e | Inr x1 \<Rightarrow>
      (let retval = retval[1 := 2 * x1] in
      (case vec_read x 2 of Inl e \<Rightarrow> Inl e | Inr x2 \<Rightarrow>
      (let retval = retval[2 := 2 * x2] in
      (case vec_read x 3 of Inl e \<Rightarrow> Inl e | Inr x3 \<Rightarrow>
      (let retval = retval[3 := 2 * x3] in
       Inr retval)))))))))"

text \<open>
  \<open>dsparsity\<close>: the loop \<open>for (auto i = 0u; i < 4u; ++i) retval.push_back(pair(0, i))\<close>.
  The counter is an \<open>unsigned int\<close>, a 32-bit word; its value is converted to \<open>long\<close>.
\<close>

function dsparsity_loop :: "32 word \<Rightarrow> sparsity_pattern \<Rightarrow> sparsity_pattern" where
  "dsparsity_loop i retval =
     (if i < 4 then dsparsity_loop (i + 1) (retval @ [(0, uint i)]) else retval)"
  by pat_completeness auto
termination
proof (relation "measure (\<lambda>(i, retval). 4 - unat i)")
  show "wf (measure (\<lambda>(i :: 32 word, retval :: sparsity_pattern). 4 - unat i))"
    by simp
next
  fix i :: "32 word" and retval :: sparsity_pattern
  assume "i < 4"
  then have "unat i < 4" and "unat (i + 1) = unat i + 1"
    by (simp_all add: word_less_nat_alt unat_word_ariths)
  then show "((i + 1, retval @ [(0, uint i)]), (i, retval))
      \<in> measure (\<lambda>(i, retval). 4 - unat i)"
    by simp
qed

declare dsparsity_loop.simps [simp del]

definition dsparsity :: sparsity_pattern where
  "dsparsity = dsparsity_loop 0 []"

definition get_n :: nat where
  "get_n = 4"

definition get_nf :: nat where
  "get_nf = 1"

definition get_bounds :: "decision_vector \<times> decision_vector" where
  "get_bounds =
     (let lb = [-10, -10, -10, -10];
          ub = [10, 10, 10, 10]
      in (lb, ub))"

definition get_name :: string where
  "get_name = ''My Problem''"

text \<open>\<open>extra_info\<close>: the string stream is the string written so far.\<close>

definition extra_info :: string where
  "extra_info =
     (let s = [];
          s = s @ ''This is a simple toy problem with one fitness, '' @ [CHR 0x0A];
          s = s @ ''no constraint and a fixed dimension of 4.'' @ [CHR 0x0A];
          s = s @ ''The fitness function gradients are also implemented'' @ [CHR 0x0A]
      in s)"

definition best_known :: "decision_vector list" where
  "best_known = [[0, 0, 0, 0]]"

subsection \<open>Calls on an object\<close>

text \<open>
  To speak about sequences of calls on one object, a call is a value, and \<open>invoke\<close> gives
  what the caller holds after it: the object, the argument it passed, and the result.
  All methods are \<open>const\<close> and take their argument by \<open>const\<close> reference; no body assigns
  to a member or to \<open>x\<close>.
\<close>

datatype call =
    Fitness decision_vector
  | Gradient decision_vector
  | Dsparsity
  | Get_n
  | Get_nf
  | Get_bounds
  | Get_name
  | Extra_info
  | Best_known

datatype reply =
    Fitness_reply "error + fitness_vector"
  | Gradient_reply "error + gradient_vector"
  | Dsparsity_reply sparsity_pattern
  | Size_reply nat
  | Bounds_reply "decision_vector \<times> decision_vector"
  | String_reply string
  | Best_known_reply "decision_vector list"

fun invoke :: "example0_g \<Rightarrow> call \<Rightarrow> example0_g \<times> call \<times> reply" where
  "invoke self (Fitness x) = (self, Fitness x, Fitness_reply (fitness x))"
| "invoke self (Gradient x) = (self, Gradient x, Gradient_reply (gradient x))"
| "invoke self Dsparsity = (self, Dsparsity, Dsparsity_reply dsparsity)"
| "invoke self Get_n = (self, Get_n, Size_reply get_n)"
| "invoke self Get_nf = (self, Get_nf, Size_reply get_nf)"
| "invoke self Get_bounds = (self, Get_bounds, Bounds_reply get_bounds)"
| "invoke self Get_name = (self, Get_name, String_reply get_name)"
| "invoke self Extra_info = (self, Extra_info, String_reply extra_info)"
| "invoke self Best_known = (self, Best_known, Best_known_reply best_known)"

text \<open>A history of calls on one object: the object after it, and the replies in order.\<close>

fun run :: "example0_g \<Rightarrow> call list \<Rightarrow> example0_g \<times> reply list" where
  "run self [] = (self, [])"
| "run self (c # cs) =
     (case invoke self c of (self', c', r) \<Rightarrow>
        (case run self' cs of (self'', rs) \<Rightarrow> (self'', r # rs)))"

text \<open>The reply to call \<open>c\<close> made on the object after the history \<open>cs\<close>.\<close>

definition reply_after :: "example0_g \<Rightarrow> call list \<Rightarrow> call \<Rightarrow> reply" where
  "reply_after self cs c = snd (snd (invoke (fst (run self cs)) c))"

subsection \<open>The objective in machine arithmetic\<close>

text \<open>
  The operators \<open>*\<close> and \<open>+\<close> in the body of \<open>fitness\<close> are those of the element type of
  the vectors, a C++ floating-point type (the gradient vector is filled from the \<open>double\<close>
  literal \<open>0.\<close>). For the one property that depends on how these operators round, the
  body is evaluated below in IEEE 754 binary64, the format of \<open>double\<close>, with every
  operation rounded to nearest, ties to even, and no fused multiply-add.

  A value is a NaN, an infinity with its sign, or finite: \<open>Finite s m e\<close> stands for
  \<open>(-1)^s * m * 2^e\<close>. The binary64 numbers are those with \<open>m < 2^53\<close> and
  \<open>-1074 \<le> e \<le> 971\<close>; both zeros exist, as \<open>Finite False 0 e\<close> and \<open>Finite True 0 e\<close>.
\<close>

datatype double = Finite bool nat int | Infinity bool | NaN

definition is_binary64 :: "double \<Rightarrow> bool" where
  "is_binary64 d =
     (case d of Finite s m e \<Rightarrow> m < 2 ^ 53 \<and> - 1074 \<le> e \<and> e \<le> 971 | _ \<Rightarrow> True)"

text \<open>The number of binary digits of \<open>n\<close>.\<close>

fun bit_length :: "nat \<Rightarrow> nat" where
  "bit_length n = (if n = 0 then 0 else Suc (bit_length (n div 2)))"

declare bit_length.simps [simp del]

text \<open>
  Rounding the exact magnitude \<open>m * 2^e\<close> to 53 significant bits: \<open>ulp\<close> is the exponent
  of the last place kept, which is not below -1074 (gradual underflow); \<open>cut\<close> is the
  number of low bits that are cut off, \<open>r\<close> their value; the kept bits \<open>q\<close> go up by one
  when \<open>r\<close> is more than half a unit of the last place, or exactly half and \<open>q\<close> is odd.
  A carry out of the 53 bits moves the exponent up by one.
\<close>

definition round_significand :: "nat \<Rightarrow> int \<Rightarrow> nat \<times> int" where
  "round_significand m e =
     (let ulp = max (e + int (bit_length m) - 53) (- 1074);
          cut = nat (ulp - e);
          q = (m * 2 ^ nat (e - ulp)) div 2 ^ cut;
          r = m mod 2 ^ cut;
          up = (2 ^ cut < 2 * r \<or> (2 * r = 2 ^ cut \<and> odd q));
          q = (if up then q + 1 else q)
      in if q = 2 ^ 53 then (2 ^ 52, ulp + 1) else (q, ulp))"

text \<open>A rounded magnitude beyond the largest binary64 number becomes an infinity.\<close>

definition pack :: "bool \<Rightarrow> nat \<times> int \<Rightarrow> double" where
  "pack s qe =
     (case qe of (q, ulp) \<Rightarrow>
        if q = 0 then Finite s 0 0
        else if 971 < ulp then Infinity s
        else Finite s q ulp)"

definition round_nearest_even :: "bool \<Rightarrow> nat \<Rightarrow> int \<Rightarrow> double" where
  "round_nearest_even s m e = pack s (round_significand m e)"

text \<open>The product: the sign is the exclusive or of the signs, zero times infinity is NaN.\<close>

fun dmul :: "double \<Rightarrow> double \<Rightarrow> double" where
  "dmul NaN b = NaN"
| "dmul a NaN = NaN"
| "dmul (Infinity s) (Infinity t) = Infinity (s \<noteq> t)"
| "dmul (Infinity s) (Finite t n f) = (if n = 0 then NaN else Infinity (s \<noteq> t))"
| "dmul (Finite s m e) (Infinity t) = (if m = 0 then NaN else Infinity (s \<noteq> t))"
| "dmul (Finite s m e) (Finite t n f) = round_nearest_even (s \<noteq> t) (m * n) (e + f)"

text \<open>The finite value \<open>(-1)^s * m * 2^e\<close> in units of \<open>2^g\<close>, an integer when \<open>g \<le> e\<close>.\<close>

definition scaled :: "bool \<Rightarrow> nat \<Rightarrow> int \<Rightarrow> int \<Rightarrow> int" where
  "scaled s m e g = (if s then - int m else int m) * 2 ^ nat (e - g)"

text \<open>
  The sum: infinities of opposite sign give NaN; an exact sum of zero is \<open>+0\<close>, except
  that \<open>-0 + -0\<close> is \<open>-0\<close>.
\<close>

fun dadd :: "double \<Rightarrow> double \<Rightarrow> double" where
  "dadd NaN b = NaN"
| "dadd a NaN = NaN"
| "dadd (Infinity s) (Infinity t) = (if s = t then Infinity s else NaN)"
| "dadd (Infinity s) (Finite t n f) = Infinity s"
| "dadd (Finite s m e) (Infinity t) = Infinity t"
| "dadd (Finite s m e) (Finite t n f) =
     (let g = min e f;
          c = scaled s m e g + scaled t n f g
      in if c = 0 then Finite (s \<and> t) 0 0
         else round_nearest_even (c < 0) (nat \<bar>c\<bar>) g)"

text \<open>The comparisons \<open><=\<close> and \<open>==\<close> of C++: false as soon as one side is NaN.\<close>

fun dle :: "double \<Rightarrow> double \<Rightarrow> bool" where
  "dle NaN b = False"
| "dle a NaN = False"
| "dle (Infinity s) (Infinity t) = (s \<or> \<not> t)"
| "dle (Infinity s) (Finite t n f) = s"
| "dle (Finite s m e) (Infinity t) = (\<not> t)"
| "dle (Finite s m e) (Finite t n f) =
     (let g = min e f in scaled s m e g \<le> scaled t n f g)"

fun deq :: "double \<Rightarrow> double \<Rightarrow> bool" where
  "deq NaN b = False"
| "deq a NaN = False"
| "deq (Infinity s) (Infinity t) = (s = t)"
| "deq (Infinity s) (Finite t n f) = False"
| "deq (Finite s m e) (Infinity t) = False"
| "deq (Finite s m e) (Finite t n f) =
     (let g = min e f in scaled s m e g = scaled t n f g)"

definition dzero :: double where
  "dzero = Finite False 0 0"

text \<open>A value that is not NaN and whose sign bit is clear.\<close>

definition sign_clear :: "double \<Rightarrow> bool" where
  "sign_clear d = (case d of Finite s m e \<Rightarrow> \<not> s | Infinity s \<Rightarrow> \<not> s | NaN \<Rightarrow> False)"

text \<open>
  The body of \<open>fitness\<close> once more, statement for statement, on binary64 entries: the
  value-initialised entry of \<open>retval\<close> is \<open>+0\<close>, each product and each sum is rounded, and
  the sum is taken from left to right as C++ parses it.
\<close>

definition fitness_double :: "double list \<Rightarrow> error + double list" where
  "fitness_double x =
     (let retval = replicate 1 dzero in
      (case vec_read x 0 of Inl e \<Rightarrow> Inl e | Inr x0 \<Rightarrow>
      (case vec_read x 1 of Inl e \<Rightarrow> Inl e | Inr x1 \<Rightarrow>
      (case vec_read x 2 of Inl e \<Rightarrow> Inl e | Inr x2 \<Rightarrow>
      (case vec_read x 3 of Inl e \<Rightarrow> Inl e | Inr x3 \<Rightarrow>
       Inr (retval[0 := dadd (dadd (dadd (dmul x0 x0) (dmul x1 x1)) (dmul x2 x2))
                           (dmul x3 x3)]))))))"

subsection \<open>The methods on the caller's memory\<close>

text \<open>
  To see what a call can touch and what its result can depend on, the memory of the
  caller is made explicit: cells addressed by natural numbers, each holding a number. From
  outside, a \<open>std::vector\<close> is the address of its first element and its size, and its
  entries are the cells from that address on. A method maps the memory before the call
  to its result and the memory after the call. The vectors a method builds and returns
  are values of its own and not part of that memory; an object of \<open>example0_g\<close> has no data
  member, so no cell belongs to it.
\<close>

type_synonym memory = "nat \<Rightarrow> real"

record vector_ref =
  data :: nat
  len :: nat

definition contents :: "memory \<Rightarrow> vector_ref \<Rightarrow> real list" where
  "contents mem x = map (\<lambda>i. mem (data x + i)) [0..<len x]"

type_synonym 'a computation = "memory \<Rightarrow> 'a \<times> memory"

text \<open>
  \<open>load x i\<close> is the read \<open>x[i]\<close> through the \<open>const\<close> reference \<open>x\<close>: \<open>operator[]\<close> does not
  look at the size, it reads the cell \<open>i\<close> places after the first element.
\<close>

definition load :: "vector_ref \<Rightarrow> nat \<Rightarrow> real computation" where
  "load x i = (\<lambda>mem. (mem (data x + i), mem))"

definition return_value :: "'a \<Rightarrow> 'a computation" where
  "return_value v = (\<lambda>mem. (v, mem))"

definition and_then :: "'a computation \<Rightarrow> ('a \<Rightarrow> 'b computation) \<Rightarrow> 'b computation" where
  "and_then p f = (\<lambda>mem. case p mem of (v, mem') \<Rightarrow> f v mem')"

definition fitness_mem :: "vector_ref \<Rightarrow> fitness_vector computation" where
  "fitness_mem x =
     (let retval = replicate 1 0 in
      and_then (load x 0) (\<lambda>x0.
      and_then (load x 1) (\<lambda>x1.
      and_then (load x 2) (\<lambda>x2.
      and_then (load x 3) (\<lambda>x3.
      return_value (retval[0 := x0 * x0 + x1 * x1 + x2 * x2 + x3 * x3]))))))"

definition gradient_mem :: "vector_ref \<Rightarrow> gradient_vector computation" where
  "gradient_mem x =
     (let retval = replicate 4 0 in
      and_then (load x 0) (\<lambda>x0. let retval = retval[0 := 2 * x0] in
      and_then (load x 1) (\<lambda>x1. let retval = retval[1 := 2 * x1] in
      and_then (load x 2) (\<lambda>x2. let retval = retval[2 := 2 * x2] in
      and_then (load x 3) (\<lambda>x3. let retval = retval[3 := 2 * x3] in
      return_value retval)))))"

text \<open>
  A call on memory names the method and, for \<open>fitness\<close> and \<open>gradient\<close>, the vector passed
  by reference. The other methods take no argument and read no memory.
\<close>

datatype request =
    Req_fitness vector_ref
  | Req_gradient vector_ref
  | Req_dsparsity
  | Req_get_n
  | Req_get_nf
  | Req_get_bounds
  | Req_get_name
  | Req_extra_info
  | Req_best_known

fun exec :: "request \<Rightarrow> reply computation" where
  "exec (Req_fitness x) = and_then (fitness_mem x) (\<lambda>v. return_value (Fitness_reply (Inr v)))"
| "exec (Req_gradient x) =
     and_then (gradient_mem x) (\<lambda>v. return_value (Gradient_reply (Inr v)))"
| "exec Req_dsparsity = return_value (Dsparsity_reply dsparsity)"
| "exec Req_get_n = return_value (Size_reply get_n)"
| "exec Req_get_nf = return_value (Size_reply get_nf)"
| "exec Req_get_bounds = return_value (Bounds_reply get_bounds)"
| "exec Req_get_name = return_value (String_reply get_name)"
| "exec Req_extra_info = return_value (String_reply extra_info)"
| "exec Req_best_known = return_value (Best_known_reply best_known)"

text \<open>A sequence of calls, each on the memory the one before left.\<close>

fun exec_all :: "request list \<Rightarrow> reply list computation" where
  "exec_all [] = return_value []"
| "exec_all (r # rs) =
     and_then (exec r) (\<lambda>v. and_then (exec_all rs) (\<lambda>vs. return_value (v # vs)))"

text \<open>The input of a call: the method and the entries of the vector passed to it.\<close>

fun input_of :: "request \<Rightarrow> memory \<Rightarrow> call" where
  "input_of (Req_fitness x) mem = Fitness (contents mem x)"
| "input_of (Req_gradient x) mem = Gradient (contents mem x)"
| "input_of Req_dsparsity mem = Dsparsity"
| "input_of Req_get_n mem = Get_n"
| "input_of Req_get_nf mem = Get_nf"
| "input_of Req_get_bounds mem = Get_bounds"
| "input_of Req_get_name mem = Get_name"
| "input_of Req_extra_info mem = Extra_info"
| "input_of Req_best_known mem = Best_known"

text \<open>The calls whose reads \<open>x[0]\<close> to \<open>x[3]\<close> stay inside the vector.\<close>

fun in_range :: "request \<Rightarrow> bool" where
  "in_range (Req_fitness x) = (4 \<le> len x)"
| "in_range (Req_gradient x) = (4 \<le> len x)"
| "in_range r = True"

section \<open>Properties\<close>

subsection \<open>Evaluation lemmas\<close>

lemma fitness_four:
  "fitness [a, b, c, d] = Inr [a * a + b * b + c * c + d * d]"
  by (simp add: fitness_def vec_read_def)

lemma gradient_four:
  "gradient [a, b, c, d] = Inr [2 * a, 2 * b, 2 * c, 2 * d]"
  by (simp add: gradient_def vec_read_def numeral_eq_Suc)

lemma length_four:
  "length xs = 4 \<Longrightarrow> \<exists>a b c d. xs = [a, b, c, d]"
  by (cases xs; simp; rename_tac ys; case_tac ys; simp;
      rename_tac zs; case_tac zs; simp; rename_tac ws; case_tac ws; simp)

lemma dsparsity_value:
  "dsparsity = [(0, 0), (0, 1), (0, 2), (0, 3)]"
  by (simp add: dsparsity_def dsparsity_loop.simps)


lemma fitness_long:
  "4 \<le> length x \<Longrightarrow>
     fitness x = Inr [x ! 0 * x ! 0 + x ! 1 * x ! 1 + x ! 2 * x ! 2 + x ! 3 * x ! 3]"
  by (auto simp add: fitness_def vec_read_def)

lemma fitness_short:
  "length x < 4 \<Longrightarrow> fitness x = Inl OutOfRangeRead"
  by (auto simp add: fitness_def vec_read_def)

lemma gradient_long:
  "4 \<le> length x \<Longrightarrow> gradient x = Inr [2 * x ! 0, 2 * x ! 1, 2 * x ! 2, 2 * x ! 3]"
  by (auto simp add: gradient_def vec_read_def numeral_eq_Suc)

lemma gradient_short:
  "length x < 4 \<Longrightarrow> gradient x = Inl OutOfRangeRead"
  by (auto simp add: gradient_def vec_read_def)

subsection \<open>The objective\<close>

text \<open>
  C1. For every decision vector \<open>x\<close> of length 4, \<open>fitness x\<close> returns a vector of length 1
  whose single entry is \<open>x[0]^2 + x[1]^2 + x[2]^2 + x[3]^2\<close>; in particular
  \<open>fitness [2,2,2,2] = [16]\<close>.
\<close>

theorem fitness_sum_of_squares:
  "(length x = 4 \<longrightarrow>
      (\<exists>fv. fitness x = Inr fv \<and> length fv = 1 \<and>
         fv ! 0 = (x ! 0)\<^sup>2 + (x ! 1)\<^sup>2 + (x ! 2)\<^sup>2 + (x ! 3)\<^sup>2))
   \<and> fitness [2, 2, 2, 2] = Inr [16]"
proof (intro conjI impI)
  assume "length x = 4"
  then have "fitness x = Inr [x ! 0 * x ! 0 + x ! 1 * x ! 1 + x ! 2 * x ! 2 + x ! 3 * x ! 3]"
    by (simp add: fitness_long)
  then show "\<exists>fv. fitness x = Inr fv \<and> length fv = 1 \<and>
      fv ! 0 = (x ! 0)\<^sup>2 + (x ! 1)\<^sup>2 + (x ! 2)\<^sup>2 + (x ! 3)\<^sup>2"
    by (simp add: power2_eq_square)
next
  show "fitness [2, 2, 2, 2] = Inr [16]"
    by (simp add: fitness_four)
qed

theorem fitness_sum_of_squares_witness:
  "length [1, 2, 3, 4 :: real] = 4 \<and>
   (\<exists>fv. fitness [1, 2, 3, 4] = Inr fv \<and> length fv = 1 \<and> fv ! 0 = 30)"
  using fitness_sum_of_squares [of "[1, 2, 3, 4]"] by simp


text \<open>
  C2, as the code has it. \<open>fitness\<close> has no check of the length of its input. Called
  with a vector of more than four entries, which is not of length 4, it does not signal
  \<open>DimensionMismatch\<close>: it returns the one-entry vector with the sum of the squares of the
  first four entries and ignores the rest, as if the vector had been cut to four entries.
  Nothing is stated about a vector of fewer than four entries: there the unchecked reads
  leave the vector, and the outcome is undefined.
\<close>

theorem fitness_wrong_length:
  "4 < length x \<Longrightarrow>
     length x \<noteq> 4
     \<and> fitness x \<noteq> Inl DimensionMismatch
     \<and> fitness x = Inr [x ! 0 * x ! 0 + x ! 1 * x ! 1 + x ! 2 * x ! 2 + x ! 3 * x ! 3]
     \<and> fitness x = fitness (take 4 x)"
proof -
  assume long: "4 < length x"
  then have "4 \<le> length x" and "4 \<le> length (take 4 x)"
    by simp_all
  then have "fitness x = Inr [x ! 0 * x ! 0 + x ! 1 * x ! 1 + x ! 2 * x ! 2 + x ! 3 * x ! 3]"
    and "fitness x = fitness (take 4 x)"
    by (simp_all add: fitness_long)
  with long show ?thesis
    by simp
qed

theorem fitness_wrong_length_witness:
  "4 < length [1, 2, 3, 4, 5 :: real]
   \<and> length [1, 2, 3, 4, 5 :: real] \<noteq> 4
   \<and> fitness [1, 2, 3, 4, 5] \<noteq> Inl DimensionMismatch
   \<and> fitness [1, 2, 3, 4, 5] = Inr [30]"
  using fitness_wrong_length [of "[1, 2, 3, 4, 5]"] by simp

text \<open>
  C2, as the spec states it, fails: a vector of length 5 is not of length 4, yet \<open>fitness\<close>
  does not signal \<open>DimensionMismatch\<close> and returns a fitness value for it, the one of its
  first four entries.
\<close>

theorem fitness_dimension_mismatch_counterexample:
  "length [1, 2, 3, 4, 5 :: real] \<noteq> 4
   \<and> fitness [1, 2, 3, 4, 5] = Inr [30]
   \<and> fitness [1, 2, 3, 4, 5] \<noteq> Inl DimensionMismatch
   \<and> fitness [1, 2, 3, 4, 5] = fitness [1, 2, 3, 4]"
  by (simp add: fitness_long)

text \<open>
  C10. \<open>fitness\<close> and \<open>gradient\<close> check no length: on every input of length at least 4
  both succeed and read only the first four entries (an input of length 5 is accepted and
  its fifth entry ignored); an out-of-range read happens only on an input shorter than 4.
\<close>

theorem no_length_check:
  "(4 \<le> length x \<longrightarrow>
      fitness x = Inr [x ! 0 * x ! 0 + x ! 1 * x ! 1 + x ! 2 * x ! 2 + x ! 3 * x ! 3]
      \<and> gradient x = Inr [2 * x ! 0, 2 * x ! 1, 2 * x ! 2, 2 * x ! 3]
      \<and> fitness x = fitness (take 4 x) \<and> gradient x = gradient (take 4 x))
   \<and> fitness [a, b, c, d, e] = fitness [a, b, c, d]
   \<and> gradient [a, b, c, d, e] = gradient [a, b, c, d]
   \<and> (fitness x = Inl err \<longrightarrow> err = OutOfRangeRead \<and> length x < 4)
   \<and> (gradient x = Inl err \<longrightarrow> err = OutOfRangeRead \<and> length x < 4)"
proof (intro conjI impI)
  assume len: "4 \<le> length x"
  show "fitness x = Inr [x ! 0 * x ! 0 + x ! 1 * x ! 1 + x ! 2 * x ! 2 + x ! 3 * x ! 3]"
    using len by (rule fitness_long)
  show "gradient x = Inr [2 * x ! 0, 2 * x ! 1, 2 * x ! 2, 2 * x ! 3]"
    using len by (rule gradient_long)
  from len have "4 \<le> length (take 4 x)"
    by simp
  then show "fitness x = fitness (take 4 x)" and "gradient x = gradient (take 4 x)"
    using len by (simp_all add: fitness_long gradient_long)
next
  show "fitness [a, b, c, d, e] = fitness [a, b, c, d]"
    by (simp add: fitness_long)
  show "gradient [a, b, c, d, e] = gradient [a, b, c, d]"
    by (simp add: gradient_long)
next
  assume "fitness x = Inl err"
  then show "err = OutOfRangeRead" and "length x < 4"
    by (cases "4 \<le> length x"; simp add: fitness_long fitness_short)+
next
  assume "gradient x = Inl err"
  then show "err = OutOfRangeRead" and "length x < 4"
    by (cases "4 \<le> length x"; simp add: gradient_long gradient_short)+
qed

theorem no_length_check_witness:
  "4 \<le> length [1, 2, 3, 4, 5 :: real]
   \<and> fitness [1, 2, 3, 4, 5] = Inr [30]
   \<and> gradient [1, 2, 3, 4, 5] = Inr [2, 4, 6, 8]
   \<and> fitness [1, 2, 3] = Inl OutOfRangeRead \<and> gradient [1, 2, 3] = Inl OutOfRangeRead
   \<and> length [1, 2, 3 :: real] < 4"
  using no_length_check [of "[1, 2, 3, 4, 5]"]
    no_length_check [of "[1, 2, 3]" _ _ _ _ _ OutOfRangeRead]
  by (simp add: fitness_short gradient_short)


subsection \<open>The gradient and its sparsity pattern\<close>

lemma fitness_along_coordinate:
  assumes "k < 4"
  shows "\<exists>f. (\<forall>t. fitness ([a, b, c, d][k := t]) = Inr [f t])
     \<and> (f has_field_derivative 2 * [a, b, c, d] ! k) (at ([a, b, c, d] ! k))"
proof -
  from assms consider "k = 0" | "k = 1" | "k = 2" | "k = 3"
    by linarith
  then show ?thesis
  proof cases
    case 1
    have "((\<lambda>t. t * t + b * b + c * c + d * d) has_field_derivative 2 * a) (at a)"
      by (auto intro!: derivative_eq_intros)
    with 1 show ?thesis
      by (intro exI [of _ "\<lambda>t. t * t + b * b + c * c + d * d"]) (simp add: fitness_four)
  next
    case 2
    have "((\<lambda>t. a * a + t * t + c * c + d * d) has_field_derivative 2 * b) (at b)"
      by (auto intro!: derivative_eq_intros)
    with 2 show ?thesis
      by (intro exI [of _ "\<lambda>t. a * a + t * t + c * c + d * d"]) (simp add: fitness_four)
  next
    case 3
    have "((\<lambda>t. a * a + b * b + t * t + d * d) has_field_derivative 2 * c) (at c)"
      by (auto intro!: derivative_eq_intros)
    with 3 show ?thesis
      by (intro exI [of _ "\<lambda>t. a * a + b * b + t * t + d * d"])
        (simp add: fitness_four numeral_eq_Suc)
  next
    case 4
    have "((\<lambda>t. a * a + b * b + c * c + t * t) has_field_derivative 2 * d) (at d)"
      by (auto intro!: derivative_eq_intros)
    with 4 show ?thesis
      by (intro exI [of _ "\<lambda>t. a * a + b * b + c * c + t * t"])
        (simp add: fitness_four numeral_eq_Suc)
  qed
qed

lemma dsparsity_nth:
  "k < 4 \<Longrightarrow> dsparsity ! k = (0, int k)"
proof -
  assume "k < 4"
  then consider "k = 0" | "k = 1" | "k = 2" | "k = 3"
    by linarith
  then show ?thesis
    by cases (simp_all add: dsparsity_value)
qed

text \<open>
  C3. For every decision vector \<open>x\<close> of length 4, \<open>gradient x\<close> returns a vector of length 4
  with entry \<open>i\<close> equal to \<open>2 * x[i]\<close>; entry \<open>k\<close> belongs to pair \<open>k\<close> of \<open>dsparsity\<close>, which is
  \<open>(0, k)\<close>: it is the derivative of component 0 of the fitness in variable \<open>k\<close> at \<open>x\<close>, the
  other variables held fixed. In particular \<open>gradient [2,2,2,2] = [4,4,4,4]\<close>.
\<close>

theorem gradient_correct:
  "(length x = 4 \<longrightarrow>
      (\<exists>g. gradient x = Inr g \<and> length g = 4 \<and> length g = length dsparsity
         \<and> (\<forall>i<4. g ! i = 2 * x ! i)
         \<and> (\<forall>k<length dsparsity.
               dsparsity ! k = (0, int k)
               \<and> (\<exists>f. (\<forall>t. \<exists>fv. fitness (x[nat (snd (dsparsity ! k)) := t]) = Inr fv
                            \<and> fv ! nat (fst (dsparsity ! k)) = f t)
                     \<and> (f has_field_derivative g ! k) (at (x ! nat (snd (dsparsity ! k))))))))
   \<and> gradient [2, 2, 2, 2] = Inr [4, 4, 4, 4]"
proof (intro conjI impI)
  assume "length x = 4"
  then obtain a b c d where x: "x = [a, b, c, d]"
    using length_four by blast
  let ?g = "[2 * a, 2 * b, 2 * c, 2 * d]"
  have g: "gradient x = Inr ?g"
    by (simp add: x gradient_four)
  have entries: "?g ! i = 2 * x ! i" if "i < 4" for i
  proof -
    from that consider "i = 0" | "i = 1" | "i = 2" | "i = 3"
      by linarith
    then show ?thesis
      by cases (simp_all add: x)
  qed
  have len: "length dsparsity = 4"
    by (simp add: dsparsity_value)
  have deriv: "dsparsity ! k = (0, int k)
      \<and> (\<exists>f. (\<forall>t. \<exists>fv. fitness (x[nat (snd (dsparsity ! k)) := t]) = Inr fv
                   \<and> fv ! nat (fst (dsparsity ! k)) = f t)
            \<and> (f has_field_derivative ?g ! k) (at (x ! nat (snd (dsparsity ! k)))))"
    if "k < length dsparsity" for k
  proof -
    from that len have k: "k < 4"
      by simp
    then have pair: "dsparsity ! k = (0, int k)"
      by (rule dsparsity_nth)
    from fitness_along_coordinate [OF k, of a b c d]
    obtain f where f: "\<forall>t. fitness (x[k := t]) = Inr [f t]"
      and d: "(f has_field_derivative 2 * x ! k) (at (x ! k))"
      unfolding x by blast
    from d entries [OF k] have "(f has_field_derivative ?g ! k) (at (x ! k))"
      by simp
    with f pair show ?thesis
      by auto
  qed
  show "\<exists>g. gradient x = Inr g \<and> length g = 4 \<and> length g = length dsparsity
         \<and> (\<forall>i<4. g ! i = 2 * x ! i)
         \<and> (\<forall>k<length dsparsity.
               dsparsity ! k = (0, int k)
               \<and> (\<exists>f. (\<forall>t. \<exists>fv. fitness (x[nat (snd (dsparsity ! k)) := t]) = Inr fv
                            \<and> fv ! nat (fst (dsparsity ! k)) = f t)
                     \<and> (f has_field_derivative g ! k) (at (x ! nat (snd (dsparsity ! k))))))"
  proof (intro exI [of _ ?g] conjI allI impI)
    show "gradient x = Inr ?g"
      by (rule g)
    show "length ?g = 4" and "length ?g = length dsparsity"
      by (simp_all add: len)
  next
    fix i :: nat
    assume "i < 4"
    then show "?g ! i = 2 * x ! i"
      by (rule entries)
  next
    fix k
    assume "k < length dsparsity"
    from deriv [OF this] show "dsparsity ! k = (0, int k)"
      and "\<exists>f. (\<forall>t. \<exists>fv. fitness (x[nat (snd (dsparsity ! k)) := t]) = Inr fv
                   \<and> fv ! nat (fst (dsparsity ! k)) = f t)
            \<and> (f has_field_derivative ?g ! k) (at (x ! nat (snd (dsparsity ! k))))"
      by blast+
  qed
next
  show "gradient [2, 2, 2, 2] = Inr [4, 4, 4, 4]"
    by (simp add: gradient_four)
qed

theorem gradient_correct_witness:
  "length [1, 2, 3, 4 :: real] = 4
   \<and> (\<exists>g. gradient [1, 2, 3, 4] = Inr g \<and> g ! 2 = 6
        \<and> (2::nat) < length dsparsity \<and> dsparsity ! 2 = (0, 2)
        \<and> (\<exists>f. (\<forall>t. \<exists>fv. fitness [1, 2, t, 4] = Inr fv \<and> fv ! 0 = f t)
              \<and> (f has_field_derivative 6) (at 3)))"
proof -
  from gradient_correct [of "[1, 2, 3, 4]"]
  obtain g where g: "gradient [1, 2, 3, 4] = Inr g"
    and entries: "\<forall>i<4. g ! i = 2 * [1, 2, 3, 4] ! i"
    and pattern: "\<forall>k<length dsparsity.
        dsparsity ! k = (0, int k)
        \<and> (\<exists>f. (\<forall>t. \<exists>fv. fitness ([1, 2, 3, 4][nat (snd (dsparsity ! k)) := t]) = Inr fv
                     \<and> fv ! nat (fst (dsparsity ! k)) = f t)
              \<and> (f has_field_derivative g ! k) (at ([1, 2, 3, 4] ! nat (snd (dsparsity ! k)))))"
    by auto
  have two: "(2::nat) < length dsparsity"
    by (simp add: dsparsity_value)
  from entries have g2: "g ! 2 = 6"
    by simp
  from pattern two have pair: "dsparsity ! 2 = (0, int 2)"
    and "\<exists>f. (\<forall>t. \<exists>fv. fitness ([1, 2, 3, 4][nat (snd (dsparsity ! 2)) := t]) = Inr fv
                   \<and> fv ! nat (fst (dsparsity ! 2)) = f t)
            \<and> (f has_field_derivative g ! 2) (at ([1, 2, 3, 4] ! nat (snd (dsparsity ! 2))))"
    by blast+
  moreover have "[1, 2, 3, 4 :: real][2 := t] = [1, 2, t, 4]" for t
    by (simp add: numeral_eq_Suc)
  ultimately have "\<exists>f. (\<forall>t. \<exists>fv. fitness [1, 2, t, 4] = Inr fv \<and> fv ! 0 = f t)
      \<and> (f has_field_derivative 6) (at 3)"
    by (simp add: g2)
  with g g2 two pair show ?thesis
    by simp
qed


text \<open>
  C4. \<open>dsparsity\<close> returns exactly the four pairs \<open>(0,0), (0,1), (0,2), (0,3)\<close>, in that
  order, and for every decision vector of length 4 the vector returned by \<open>gradient\<close> has
  length 4, one entry per pair.
\<close>

theorem dsparsity_pattern:
  "dsparsity = [(0, 0), (0, 1), (0, 2), (0, 3)]
   \<and> length dsparsity = 4
   \<and> (length x = 4 \<longrightarrow>
        (\<exists>g. gradient x = Inr g \<and> length g = 4 \<and> length g = length dsparsity))"
proof (intro conjI impI)
  show "dsparsity = [(0, 0), (0, 1), (0, 2), (0, 3)]"
    by (rule dsparsity_value)
  show "length dsparsity = 4"
    by (simp add: dsparsity_value)
next
  assume "length x = 4"
  then have "gradient x = Inr [2 * x ! 0, 2 * x ! 1, 2 * x ! 2, 2 * x ! 3]"
    by (simp add: gradient_long)
  then show "\<exists>g. gradient x = Inr g \<and> length g = 4 \<and> length g = length dsparsity"
    by (simp add: dsparsity_value)
qed

theorem dsparsity_pattern_witness:
  "length [1, 2, 3, 4 :: real] = 4
   \<and> (\<exists>g. gradient [1, 2, 3, 4] = Inr g \<and> length g = 4 \<and> length g = length dsparsity)"
  using dsparsity_pattern [of "[1, 2, 3, 4]"] by auto

subsection \<open>Sizes, bounds and the known optimum\<close>

text \<open>
  C5. \<open>get_bounds\<close> returns the pair \<open>([-10,-10,-10,-10], [10,10,10,10])\<close>, both of
  length 4, and at every index the lower bound is at most the upper bound.
\<close>

theorem get_bounds_box:
  "get_bounds = ([-10, -10, -10, -10], [10, 10, 10, 10])
   \<and> length (fst get_bounds) = 4 \<and> length (snd get_bounds) = 4
   \<and> (\<forall>i<length (fst get_bounds). fst get_bounds ! i \<le> snd get_bounds ! i)"
proof -
  have "[-10, -10, -10, -10 :: real] ! i \<le> [10, 10, 10, 10] ! i" if "i < 4" for i
  proof -
    from that consider "i = 0" | "i = 1" | "i = 2" | "i = 3"
      by linarith
    then show ?thesis
      by cases simp_all
  qed
  then show ?thesis
    by (simp add: get_bounds_def)
qed

theorem get_bounds_box_witness:
  "(2::nat) < length (fst get_bounds)
   \<and> fst get_bounds ! 2 = -10 \<and> snd get_bounds ! 2 = 10
   \<and> fst get_bounds ! 2 \<le> snd get_bounds ! 2"
proof -
  from get_bounds_box
  have le: "\<forall>i<length (fst get_bounds). fst get_bounds ! i \<le> snd get_bounds ! i"
    by blast
  have two: "(2::nat) < length (fst get_bounds)"
    by (simp add: get_bounds_def)
  with le have "fst get_bounds ! 2 \<le> snd get_bounds ! 2"
    by blast
  moreover have "fst get_bounds ! 2 = -10" and "snd get_bounds ! 2 = 10"
    by (simp_all add: get_bounds_def)
  ultimately show ?thesis
    using two by blast
qed

text \<open>
  C7. \<open>best_known\<close> returns a collection with exactly one element, the decision vector
  \<open>[0,0,0,0]\<close>, and the fitness at that element is \<open>[0]\<close>.
\<close>

theorem best_known_origin:
  "best_known = [[0, 0, 0, 0]] \<and> length best_known = 1
   \<and> fitness (best_known ! 0) = Inr [0]"
  by (simp add: best_known_def fitness_four)

subsection \<open>The minimum in machine arithmetic\<close>

lemma fitness_double_four:
  "fitness_double [a, b, c, d] =
     Inr [dadd (dadd (dadd (dmul a a) (dmul b b)) (dmul c c)) (dmul d d)]"
  by (simp add: fitness_double_def vec_read_def)

lemma bit_length_bound:
  "m < 2 ^ bit_length m"
proof (induction m rule: bit_length.induct)
  case (1 n)
  show ?case
  proof (cases "n = 0")
    case True
    then show ?thesis by (simp add: bit_length.simps)
  next
    case False
    with 1 have "n div 2 < 2 ^ bit_length (n div 2)"
      by simp
    then have "n < 2 * 2 ^ bit_length (n div 2)"
      by linarith
    with False show ?thesis
      by (simp add: bit_length.simps [of n])
  qed
qed

lemma round_significand_range:
  assumes "round_significand m e = (q, u)"
  shows "q < 2 ^ 53 \<and> - 1074 \<le> u"
proof -
  define ulp where "ulp = max (e + int (bit_length m) - 53) (- 1074)"
  define cut where "cut = nat (ulp - e)"
  define q0 where "q0 = (m * 2 ^ nat (e - ulp)) div 2 ^ cut"
  define r where "r = m mod 2 ^ cut"
  define q1 where "q1 = (if 2 ^ cut < 2 * r \<or> (2 * r = 2 ^ cut \<and> odd q0) then q0 + 1 else q0)"
  have res: "(q, u) = (if q1 = 2 ^ 53 then (2 ^ 52, ulp + 1) else (q1, ulp))"
    using assms unfolding round_significand_def Let_def ulp_def cut_def q0_def r_def q1_def
    by simp
  have ulp_low: "- 1074 \<le> ulp"
    by (simp add: ulp_def)
  have m: "m < 2 ^ bit_length m"
    by (rule bit_length_bound)
  have q0: "q0 < 2 ^ 53"
  proof (cases "ulp \<le> e")
    case True
    then have no_cut: "cut = 0"
      by (simp add: cut_def)
    have "int (bit_length m) + (e - ulp) \<le> 53"
      unfolding ulp_def by linarith
    then have "bit_length m + nat (e - ulp) \<le> 53"
      using True by linarith
    then have "(2::nat) ^ (bit_length m + nat (e - ulp)) \<le> 2 ^ 53"
      by (intro power_increasing) simp_all
    then have "(2::nat) ^ bit_length m * 2 ^ nat (e - ulp) \<le> 2 ^ 53"
      by (simp only: power_add)
    moreover from m have "m * 2 ^ nat (e - ulp) < 2 ^ bit_length m * 2 ^ nat (e - ulp)"
      by simp
    ultimately have "m * 2 ^ nat (e - ulp) < 2 ^ 53"
      by (rule less_le_trans [rotated])
    with no_cut show ?thesis
      by (simp add: q0_def)
  next
    case False
    then have no_shift: "nat (e - ulp) = 0"
      by simp
    from False have "int (bit_length m) \<le> 53 + int cut"
      unfolding ulp_def cut_def by linarith
    then have "bit_length m \<le> 53 + cut"
      by linarith
    then have "(2::nat) ^ bit_length m \<le> 2 ^ (53 + cut)"
      by (intro power_increasing) simp_all
    with m have "m < 2 ^ 53 * 2 ^ cut"
      by (simp add: power_add)
    then have "m div 2 ^ cut < 2 ^ 53"
      by (simp add: less_mult_imp_div_less)
    with no_shift show ?thesis
      by (simp add: q0_def)
  qed
  then have "q1 \<le> 2 ^ 53"
    by (simp add: q1_def)
  with res ulp_low show ?thesis
    by (auto split: if_splits)
qed

lemma round_nearest_even_binary64:
  "is_binary64 (round_nearest_even s m e)"
proof (cases "round_significand m e")
  case (Pair q u)
  from round_significand_range [OF Pair] show ?thesis
    by (simp add: round_nearest_even_def Pair pack_def is_binary64_def)
qed

lemma dadd_binary64:
  "is_binary64 (dadd a b)"
  by (cases a; cases b)
    (simp_all add: round_nearest_even_binary64 Let_def, simp_all add: is_binary64_def)

lemma round_sign_clear:
  "sign_clear (round_nearest_even False m e)"
  by (cases "round_significand m e") (simp add: round_nearest_even_def pack_def sign_clear_def)

lemma dmul_self_sign_clear:
  "d \<noteq> NaN \<Longrightarrow> sign_clear (dmul d d)"
  by (cases d) (simp_all add: round_sign_clear, simp add: sign_clear_def)

lemma scaled_nonneg:
  "0 \<le> scaled False m e g"
  by (simp add: scaled_def)

lemma dadd_sign_clear:
  assumes "sign_clear a" and "sign_clear b"
  shows "sign_clear (dadd a b)"
proof (cases a)
  case fa: (Finite s m e)
  show ?thesis
  proof (cases b)
    case fb: (Finite t n f)
    from assms fa fb have st: "\<not> s" "\<not> t"
      by (simp_all add: sign_clear_def)
    have "0 \<le> scaled False m e (min e f) + scaled False n f (min e f)"
      by (intro add_nonneg_nonneg scaled_nonneg)
    then have "\<not> scaled False m e (min e f) + scaled False n f (min e f) < 0"
      by simp
    with st fa fb show ?thesis
      by (simp add: Let_def round_sign_clear) (simp add: sign_clear_def)
  next
    case (Infinity t)
    with assms fa show ?thesis by (simp add: sign_clear_def)
  next
    case NaN
    with assms show ?thesis by (simp add: sign_clear_def)
  qed
next
  case ia: (Infinity s)
  with assms show ?thesis
    by (cases b) (simp_all add: sign_clear_def)
next
  case NaN
  with assms show ?thesis by (simp add: sign_clear_def)
qed

lemma dle_zero_sign_clear:
  "sign_clear v \<Longrightarrow> dle dzero v"
  by (cases v) (simp_all add: sign_clear_def dzero_def scaled_def)

lemma bit_length_lower:
  "0 < m \<Longrightarrow> 2 ^ bit_length m \<le> 2 * m"
proof (induction m rule: bit_length.induct)
  case (1 n)
  show ?case
  proof (cases "n div 2 = 0")
    case True
    with 1(2) have "n = 1"
      by (simp add: div_eq_0_iff)
    then show ?thesis
      by (simp add: bit_length.simps)
  next
    case False
    with 1 have "2 ^ bit_length (n div 2) \<le> 2 * (n div 2)"
      by simp
    also have "\<dots> \<le> n"
      by simp
    finally show ?thesis
      using 1(2) by (simp add: bit_length.simps [of n])
  qed
qed

lemma round_significand_positive:
  assumes "round_significand m e = (q, u)" and "0 < m" and "- 1074 \<le> e"
  shows "0 < q"
proof -
  define ulp where "ulp = max (e + int (bit_length m) - 53) (- 1074)"
  define cut where "cut = nat (ulp - e)"
  define q0 where "q0 = (m * 2 ^ nat (e - ulp)) div 2 ^ cut"
  define r where "r = m mod 2 ^ cut"
  define q1 where "q1 = (if 2 ^ cut < 2 * r \<or> (2 * r = 2 ^ cut \<and> odd q0) then q0 + 1 else q0)"
  have res: "(q, u) = (if q1 = 2 ^ 53 then (2 ^ 52, ulp + 1) else (q1, ulp))"
    using assms(1) unfolding round_significand_def Let_def ulp_def cut_def q0_def r_def q1_def
    by simp
  have "0 < q0"
  proof (cases "ulp \<le> e")
    case True
    then have "cut = 0"
      by (simp add: cut_def)
    with assms(2) show ?thesis
      by (simp add: q0_def)
  next
    case False
    then have no_shift: "nat (e - ulp) = 0"
      by simp
    from False assms(3) have "int (bit_length m) = int cut + 53"
      unfolding ulp_def cut_def by linarith
    then have "bit_length m = cut + 53"
      by linarith
    with bit_length_lower [OF assms(2)] have "2 ^ (cut + 53) \<le> 2 * m"
      by simp
    then have "(2::nat) ^ 52 * 2 ^ cut \<le> m"
      by (simp add: power_add)
    then have "2 ^ 52 \<le> m div 2 ^ cut"
      by (simp add: less_eq_div_iff_mult_less_eq)
    with no_shift show ?thesis
      by (simp add: q0_def)
  qed
  then have "0 < q1"
    by (simp add: q1_def)
  with res show ?thesis
    by (auto split: if_splits)
qed

lemma deq_finite_zero:
  "deq (Finite s m e) dzero \<longleftrightarrow> m = 0"
  by (simp add: dzero_def scaled_def)

lemma round_nearest_even_nonzero:
  assumes "0 < m" and "- 1074 \<le> e"
  shows "\<not> deq (round_nearest_even s m e) dzero"
proof (cases "round_significand m e")
  case (Pair q u)
  from round_significand_positive [OF Pair assms] have "0 < q" .
  then show ?thesis
    by (simp add: round_nearest_even_def Pair pack_def deq_finite_zero) (simp add: dzero_def)
qed

lemma dadd_zero_iff:
  assumes "sign_clear a" and "sign_clear b" and "is_binary64 a" and "is_binary64 b"
  shows "deq (dadd a b) dzero \<longleftrightarrow> deq a dzero \<and> deq b dzero"
proof (cases a)
  case fa: (Finite s m e)
  show ?thesis
  proof (cases b)
    case fb: (Finite t n f)
    from assms fa fb have st: "\<not> s" "\<not> t" and low: "- 1074 \<le> min e f"
      by (simp_all add: sign_clear_def is_binary64_def)
    define c where "c = scaled False m e (min e f) + scaled False n f (min e f)"
    have nonneg: "0 \<le> scaled False m e (min e f)" "0 \<le> scaled False n f (min e f)"
      by (rule scaled_nonneg)+
    have zero: "c = 0 \<longleftrightarrow> m = 0 \<and> n = 0"
    proof
      assume "c = 0"
      with nonneg have "scaled False m e (min e f) = 0" and "scaled False n f (min e f) = 0"
        unfolding c_def by linarith+
      then show "m = 0 \<and> n = 0"
        by (simp add: scaled_def)
    next
      assume "m = 0 \<and> n = 0"
      then show "c = 0"
        by (simp add: c_def scaled_def)
    qed
    show ?thesis
    proof (cases "c = 0")
      case True
      then have "scaled False m e (min e f) + scaled False n f (min e f) = 0"
        by (simp add: c_def)
      with st fa fb have "dadd a b = Finite False 0 0"
        by (simp add: Let_def)
      then have "deq (dadd a b) dzero"
        by (simp add: deq_finite_zero)
      moreover from True zero have "m = 0" and "n = 0"
        by simp_all
      ultimately show ?thesis
        using fa fb by (simp add: deq_finite_zero)
    next
      case False
      with nonneg have pos: "0 < nat \<bar>c\<bar>" and "\<not> c < 0"
        unfolding c_def by linarith+
      with False st fa fb have "dadd a b = round_nearest_even False (nat \<bar>c\<bar>) (min e f)"
        by (simp add: Let_def c_def [symmetric])
      with round_nearest_even_nonzero [OF pos low] have "\<not> deq (dadd a b) dzero"
        by simp
      with False zero fa fb show ?thesis
        by (simp add: deq_finite_zero)
    qed
  next
    case (Infinity t)
    with fa show ?thesis by (simp add: dzero_def)
  next
    case NaN
    with assms show ?thesis by (simp add: sign_clear_def)
  qed
next
  case (Infinity s)
  with assms show ?thesis
    by (cases b) (simp_all add: sign_clear_def dzero_def)
next
  case NaN
  with assms show ?thesis by (simp add: sign_clear_def)
qed

lemma dmul_binary64:
  "is_binary64 (dmul a b)"
  by (cases a; cases b) (simp_all add: round_nearest_even_binary64, simp_all add: is_binary64_def)

lemma sum_of_squares_zero_iff:
  assumes "a \<noteq> NaN" "b \<noteq> NaN" "c \<noteq> NaN" "d \<noteq> NaN"
  shows "deq (dadd (dadd (dadd (dmul a a) (dmul b b)) (dmul c c)) (dmul d d)) dzero
    \<longleftrightarrow> deq (dmul a a) dzero \<and> deq (dmul b b) dzero \<and> deq (dmul c c) dzero
       \<and> deq (dmul d d) dzero"
proof -
  from assms have sq: "sign_clear (dmul a a)" "sign_clear (dmul b b)"
    "sign_clear (dmul c c)" "sign_clear (dmul d d)"
    by (simp_all add: dmul_self_sign_clear)
  have ab: "sign_clear (dadd (dmul a a) (dmul b b))"
    using sq by (intro dadd_sign_clear)
  have abc: "sign_clear (dadd (dadd (dmul a a) (dmul b b)) (dmul c c))"
    using sq by (intro dadd_sign_clear)
  show ?thesis
    by (simp add: dadd_zero_iff sq ab abc dmul_binary64 dadd_binary64)
qed

lemma tiny_square:
  "dmul (Finite False 1 (- 600)) (Finite False 1 (- 600)) = dzero"
  by (simp add: round_nearest_even_def round_significand_def pack_def dzero_def Let_def
      bit_length.simps)

lemma zero_square:
  "dmul dzero dzero = dzero"
  by (simp add: round_nearest_even_def round_significand_def pack_def dzero_def Let_def
      bit_length.simps)

lemma zero_sum:
  "dadd dzero dzero = dzero"
  by (simp add: dzero_def scaled_def)

text \<open>
  C8, as the code has it. For every decision vector \<open>x\<close> of length 4 with no NaN entry,
  the fitness value is a binary64 number that is \<open>>= 0\<close>; at the origin it is \<open>0\<close>, so the
  value at \<open>x\<close> is \<open>>=\<close> the value at the origin, and the origin attains the minimum.
  The value is \<open>== 0\<close> exactly when each of the four squares \<open>x[i] * x[i]\<close> is \<open>== 0\<close>:
  at the origin, and nowhere but at vectors whose entries are so small that their
  squares round to 0.
\<close>

theorem origin_minimum_binary64:
  assumes "length x = 4" and "NaN \<notin> set x"
  shows "\<exists>v v0. fitness_double x = Inr [v]
     \<and> fitness_double [dzero, dzero, dzero, dzero] = Inr [v0]
     \<and> is_binary64 v \<and> dle dzero v \<and> deq v0 dzero \<and> dle v0 v
     \<and> (deq v dzero \<longleftrightarrow>
          deq (dmul (x ! 0) (x ! 0)) dzero \<and> deq (dmul (x ! 1) (x ! 1)) dzero
          \<and> deq (dmul (x ! 2) (x ! 2)) dzero \<and> deq (dmul (x ! 3) (x ! 3)) dzero)"
proof -
  from assms(1) obtain a b c d where x: "x = [a, b, c, d]"
    using length_four by blast
  let ?v = "dadd (dadd (dadd (dmul a a) (dmul b b)) (dmul c c)) (dmul d d)"
  from assms(2) x have entries: "a \<noteq> NaN" "b \<noteq> NaN" "c \<noteq> NaN" "d \<noteq> NaN"
    by auto
  then have "sign_clear (dmul a a)" "sign_clear (dmul b b)"
    "sign_clear (dmul c c)" "sign_clear (dmul d d)"
    by (simp_all add: dmul_self_sign_clear)
  then have "sign_clear ?v"
    by (intro dadd_sign_clear)
  then have ge: "dle dzero ?v"
    by (rule dle_zero_sign_clear)
  have fmt: "is_binary64 ?v"
    by (rule dadd_binary64)
  have origin: "fitness_double [dzero, dzero, dzero, dzero] = Inr [dzero]"
    by (simp only: fitness_double_four zero_square zero_sum)
  have self: "deq dzero dzero"
    by (simp add: dzero_def)
  have zero: "deq ?v dzero \<longleftrightarrow>
      deq (dmul a a) dzero \<and> deq (dmul b b) dzero \<and> deq (dmul c c) dzero
      \<and> deq (dmul d d) dzero"
    using entries by (rule sum_of_squares_zero_iff)
  have nths: "x ! 0 = a" "x ! 1 = b" "x ! 2 = c" "x ! 3 = d"
    by (simp_all add: x)
  have fit: "fitness_double x = Inr [?v]"
    by (simp add: x fitness_double_four)
  have "deq ?v dzero \<longleftrightarrow>
      deq (dmul (x ! 0) (x ! 0)) dzero \<and> deq (dmul (x ! 1) (x ! 1)) dzero
      \<and> deq (dmul (x ! 2) (x ! 2)) dzero \<and> deq (dmul (x ! 3) (x ! 3)) dzero"
    unfolding nths by (rule zero)
  with fit origin fmt ge self show ?thesis
    by blast
qed

theorem origin_minimum_binary64_witness:
  "length [Finite False 3 0, dzero, dzero, Finite True 1 0] = 4
   \<and> NaN \<notin> set [Finite False 3 0, dzero, dzero, Finite True 1 0]
   \<and> (\<exists>v v0. fitness_double [Finite False 3 0, dzero, dzero, Finite True 1 0] = Inr [v]
        \<and> fitness_double [dzero, dzero, dzero, dzero] = Inr [v0]
        \<and> is_binary64 v \<and> dle dzero v \<and> deq v0 dzero \<and> dle v0 v \<and> \<not> deq v dzero)"
proof -
  let ?x = "[Finite False 3 0, dzero, dzero, Finite True 1 0]"
  have len: "length ?x = 4" and nan: "NaN \<notin> set ?x"
    by (simp_all add: dzero_def)
  have "dmul (Finite False 3 0) (Finite False 3 0) = Finite False (9 * 2 ^ 49) (- 49)"
    by (simp add: round_nearest_even_def round_significand_def pack_def Let_def
        bit_length.simps)
  then have nine: "\<not> deq (dmul (?x ! 0) (?x ! 0)) dzero"
    by (simp add: deq_finite_zero)
  from origin_minimum_binary64 [OF len nan] nine len nan show ?thesis
    by blast
qed

text \<open>
  C8, as the spec states it, fails: \<open>2^-600\<close> is a binary64 number different from 0 and
  inside the bounds, yet its square underflows to 0, so \<open>fitness [2^-600, 0, 0, 0] = [0]\<close>
  away from the origin; and on a vector with a NaN entry the fitness value is NaN, which
  is not \<open>>= 0\<close>.
\<close>

theorem origin_unique_minimum_counterexample:
  "is_binary64 (Finite False 1 (- 600))
   \<and> \<not> deq (Finite False 1 (- 600)) dzero
   \<and> fitness_double [Finite False 1 (- 600), dzero, dzero, dzero] = Inr [dzero]
   \<and> deq dzero dzero
   \<and> fitness_double [NaN, dzero, dzero, dzero] = Inr [NaN]
   \<and> \<not> dle dzero NaN"
proof -
  have "fitness_double [Finite False 1 (- 600), dzero, dzero, dzero] = Inr [dzero]"
    by (simp only: fitness_double_four tiny_square zero_square zero_sum)
  moreover have "fitness_double [NaN, dzero, dzero, dzero] = Inr [NaN]"
    by (simp only: fitness_double_four dmul.simps dadd.simps)
  moreover have "is_binary64 (Finite False 1 (- 600))"
    by (simp add: is_binary64_def)
  moreover have "\<not> deq (Finite False 1 (- 600)) dzero" and "deq dzero dzero"
    and "\<not> dle dzero NaN"
    by (simp_all add: dzero_def scaled_def)
  ultimately show ?thesis
    by blast
qed

subsection \<open>The object under sequences of calls\<close>

text \<open>
  C6. \<open>get_n\<close> returns 4 and \<open>get_nf\<close> returns 1, and they keep doing so on a constructed
  object whatever calls were made on it before.
\<close>

theorem sizes_constant:
  "get_n = 4 \<and> get_nf = 1
   \<and> reply_after Example0_g cs Get_n = Size_reply 4
   \<and> reply_after Example0_g cs Get_nf = Size_reply 1"
  by (simp add: reply_after_def get_n_def get_nf_def)

subsection \<open>Calls on memory\<close>

lemma contents_nth:
  "i < len x \<Longrightarrow> contents mem x ! i = mem (data x + i)"
  by (simp add: contents_def)

lemma length_contents:
  "length (contents mem x) = len x"
  by (simp add: contents_def)

lemma fitness_mem_frame:
  "snd (fitness_mem x mem) = mem"
  by (simp add: fitness_mem_def and_then_def load_def return_value_def)

lemma gradient_mem_frame:
  "snd (gradient_mem x mem) = mem"
  by (simp add: gradient_mem_def and_then_def load_def return_value_def Let_def)

lemma fitness_mem_value:
  "4 \<le> len x \<Longrightarrow> Inr (fst (fitness_mem x mem)) = fitness (contents mem x)"
  by (simp add: fitness_mem_def and_then_def load_def return_value_def fitness_long
      length_contents contents_nth)

lemma gradient_mem_value:
  "4 \<le> len x \<Longrightarrow> Inr (fst (gradient_mem x mem)) = gradient (contents mem x)"
  by (simp add: gradient_mem_def and_then_def load_def return_value_def gradient_long
      length_contents contents_nth Let_def numeral_eq_Suc)

lemma and_then_return_frame:
  "snd (and_then p (\<lambda>v. return_value (f v)) mem) = snd (p mem)"
  by (simp add: and_then_def return_value_def split: prod.splits)

lemma and_then_return_result:
  "fst (and_then p (\<lambda>v. return_value (f v)) mem) = f (fst (p mem))"
  by (simp add: and_then_def return_value_def split: prod.splits)

lemma exec_frame:
  "snd (exec r mem) = mem"
  by (cases r)
    (simp_all add: and_then_return_frame fitness_mem_frame gradient_mem_frame,
      simp_all add: return_value_def)

lemma exec_value:
  "in_range r \<Longrightarrow> fst (exec r mem) = snd (snd (invoke Example0_g (input_of r mem)))"
proof (cases r)
  case (Req_fitness x)
  assume "in_range r"
  with Req_fitness have "Inr (fst (fitness_mem x mem)) = fitness (contents mem x)"
    by (simp add: fitness_mem_value)
  with Req_fitness show ?thesis
    by (simp add: and_then_return_result)
next
  case (Req_gradient x)
  assume "in_range r"
  with Req_gradient have "Inr (fst (gradient_mem x mem)) = gradient (contents mem x)"
    by (simp add: gradient_mem_value)
  with Req_gradient show ?thesis
    by (simp add: and_then_return_result)
qed (simp_all add: return_value_def)

lemma exec_all_frame:
  "snd (exec_all rs mem) = mem"
proof (induction rs arbitrary: mem)
  case Nil
  show ?case by (simp add: return_value_def)
next
  case (Cons r rs)
  obtain v mem' where step: "exec r mem = (v, mem')"
    by (cases "exec r mem") auto
  with exec_frame [of r mem] have same: "mem' = mem"
    by simp
  obtain vs mem'' where rest: "exec_all rs mem' = (vs, mem'')"
    by (cases "exec_all rs mem'") auto
  with Cons.IH [of mem'] have "mem'' = mem'"
    by simp
  with step rest same show ?case
    by (simp add: and_then_def return_value_def)
qed

text \<open>
  C9, as the code has it. Take calls whose reads stay inside the vector they are given:
  any call of a method without argument, and \<open>fitness\<close> or \<open>gradient\<close> on a vector of at
  least four entries. Such a call leaves the whole memory as it was, so neither the
  input vector nor anything else is changed; its result is the one the method computes
  from the entries of the input vector alone, so two calls with equal inputs return equal
  results, wherever the vectors lie and whatever else the memory holds; and its result
  after any sequence of such calls is its result without them. Nothing is stated about
  \<open>fitness\<close> and \<open>gradient\<close> on a vector of fewer than four entries.
\<close>

theorem methods_pure_in_range:
  assumes "in_range r" and "in_range r'" and "\<forall>q\<in>set rs. in_range q"
  shows "snd (exec r mem) = mem
     \<and> contents (snd (exec r mem)) x = contents mem x
     \<and> fst (exec r mem) = snd (snd (invoke Example0_g (input_of r mem)))
     \<and> (input_of r mem = input_of r' mem' \<longrightarrow> fst (exec r mem) = fst (exec r' mem'))
     \<and> snd (exec_all rs mem) = mem
     \<and> fst (exec r (snd (exec_all rs mem))) = fst (exec r mem)"
  using assms(1,2) by (simp add: exec_frame exec_all_frame exec_value)

theorem methods_pure_in_range_witness:
  "in_range (Req_fitness \<lparr>data = 1, len = 4\<rparr>)
   \<and> in_range (Req_fitness \<lparr>data = 10, len = 4\<rparr>)
   \<and> in_range (Req_gradient \<lparr>data = 0, len = 6\<rparr>) \<and> in_range Req_get_n
   \<and> input_of (Req_fitness \<lparr>data = 1, len = 4\<rparr>) (\<lambda>a. real a)
       = input_of (Req_fitness \<lparr>data = 10, len = 4\<rparr>) (\<lambda>a. real a - 9)
   \<and> input_of (Req_fitness \<lparr>data = 1, len = 4\<rparr>) (\<lambda>a. real a) = Fitness [1, 2, 3, 4]
   \<and> fst (exec (Req_fitness \<lparr>data = 1, len = 4\<rparr>) (\<lambda>a. real a))
       = fst (exec (Req_fitness \<lparr>data = 10, len = 4\<rparr>) (\<lambda>a. real a - 9))
   \<and> fst (exec (Req_fitness \<lparr>data = 1, len = 4\<rparr>) (\<lambda>a. real a)) = Fitness_reply (Inr [30])
   \<and> fst (exec (Req_fitness \<lparr>data = 1, len = 4\<rparr>)
        (snd (exec_all [Req_gradient \<lparr>data = 0, len = 6\<rparr>, Req_get_n] (\<lambda>a. real a))))
       = Fitness_reply (Inr [30])"
proof -
  let ?r = "Req_fitness \<lparr>data = 1, len = 4\<rparr>"
  let ?r' = "Req_fitness \<lparr>data = 10, len = 4\<rparr>"
  let ?rs = "[Req_gradient \<lparr>data = 0, len = 6\<rparr>, Req_get_n]"
  let ?mem = "\<lambda>a. real a"
  let ?mem' = "\<lambda>a. real a - 9"
  have inp: "input_of ?r ?mem = Fitness [1, 2, 3, 4]"
    and inp': "input_of ?r' ?mem' = Fitness [1, 2, 3, 4]"
    by (simp_all add: contents_def upt_rec)
  have rng: "in_range ?r" and rng': "in_range ?r'" and rngs: "\<forall>q\<in>set ?rs. in_range q"
    by simp_all
  from methods_pure_in_range [OF rng rng' rngs, of ?mem _ ?mem']
  have val: "fst (exec ?r ?mem) = snd (snd (invoke Example0_g (input_of ?r ?mem)))"
    and eq: "input_of ?r ?mem = input_of ?r' ?mem' \<longrightarrow> fst (exec ?r ?mem) = fst (exec ?r' ?mem')"
    and hist: "fst (exec ?r (snd (exec_all ?rs ?mem))) = fst (exec ?r ?mem)"
    by blast+
  from eq inp inp' have same: "fst (exec ?r ?mem) = fst (exec ?r' ?mem')"
    by (simp only:)
  from val have reply: "fst (exec ?r ?mem) = Fitness_reply (Inr [30])"
    by (simp only: inp invoke.simps snd_conv fitness_four) simp
  with hist have "fst (exec ?r (snd (exec_all ?rs ?mem))) = Fitness_reply (Inr [30])"
    by (simp only:)
  moreover have "in_range (Req_gradient \<lparr>data = 0, len = 6\<rparr>)" and "in_range Req_get_n"
    by simp_all
  ultimately show ?thesis
    using reply same inp inp' rng rng' by (simp only:)
qed

text \<open>
  C9, as the spec states it, fails for \<open>fitness\<close> (and likewise \<open>gradient\<close>) on a vector of
  fewer than four entries: the read \<open>x[3]\<close> of a vector of three entries takes the cell
  behind the vector, so two calls whose input vectors both hold \<open>[1, 1, 1]\<close> return
  different results when those cells differ.
\<close>

theorem short_input_counterexample:
  "contents (\<lambda>a. 1) \<lparr>data = 0, len = 3\<rparr> = [1, 1, 1]
   \<and> contents (\<lambda>a. if a < 3 then 1 else 2) \<lparr>data = 0, len = 3\<rparr> = [1, 1, 1]
   \<and> fst (exec (Req_fitness \<lparr>data = 0, len = 3\<rparr>) (\<lambda>a. 1)) = Fitness_reply (Inr [4])
   \<and> fst (exec (Req_fitness \<lparr>data = 0, len = 3\<rparr>) (\<lambda>a. if a < 3 then 1 else 2))
       = Fitness_reply (Inr [7])"
  by (simp add: contents_def upt_rec and_then_def return_value_def load_def fitness_mem_def)

end
